theory Spec2Isabelle
  imports Main "HOL-Library.List_Lexorder" "HOL-Library.Char_ord" "HOL-Library.AList"
    "HOL-Library.Multiset"
begin

section \<open>Data model\<close>

text \<open>
  A cookie as the program sees it. The program reads the promoted fields \<open>Name\<close> and
  \<open>Value\<close> directly; every other access goes through reflection over the struct's
  fields. The declaration of \<open>kooky.Cookie\<close> belongs to the cookie-store library, so the
  reflected view (field name and field value, in declaration order) is carried by the list
  \<open>Fields\<close>, with the field values of an arbitrary type \<open>'v\<close>.
\<close>

record 'v Cookie =
  Name :: string
  Value :: string
  Fields :: "(string \<times> 'v) list"

text \<open>
  Go errors are created by \<open>errors.New\<close> with a text and wrapped by \<open>fmt.Errorf\<close> with
  \<open>%w\<close>. Each creation site carries the class the specification gives it, together with
  the text of the source.
\<close>

datatype error =
    ConfigError string
  | NotFoundError string
  | EmptyValueError string
  | SerializationError string
  | Wrapped string error

section \<open>Go slices, strings and JSON objects\<close>

text \<open>
  A slice variable declared with \<open>var\<close> starts as \<open>nil\<close>, and \<open>getCookies\<close> tests
  \<open>cookies == nil\<close>. The slice is therefore an optional list, \<open>None\<close> being \<open>nil\<close>.
  Appending no element to a \<open>nil\<close> slice leaves it \<open>nil\<close>; appending at least one element
  allocates.
\<close>

fun append_slice :: "'a list option \<Rightarrow> 'a list \<Rightarrow> 'a list option" where
  "append_slice None xs = (if xs = [] then None else Some xs)"
| "append_slice (Some ys) xs = Some (ys @ xs)"

text \<open>\<open>strings.Join\<close>: the first element, then separator and element for each further one.\<close>

fun Join :: "string list \<Rightarrow> string \<Rightarrow> string" where
  "Join [] sep = []"
| "Join (x # xs) sep = x @ concat (map (\<lambda>s. sep @ s) xs)"

text \<open>\<open>strconv.Itoa\<close>: the decimal digits of an integer, with a minus sign when negative.\<close>

function digits :: "nat \<Rightarrow> string" where
  "digits n = (if n < 10 then [''0123456789'' ! n] else digits (n div 10) @ [''0123456789'' ! (n mod 10)])"
  by pat_completeness auto
termination
  by (relation "measure (\<lambda>n. n)") auto

definition Itoa :: "int \<Rightarrow> string" where
  "Itoa i = (if i < 0 then ''-'' @ digits (nat (- i)) else digits (nat i))"

text \<open>
  A Go map with string keys is an association list with one entry per key; the assignment
  \<open>m[k] = v\<close> is \<open>AList.update k v m\<close>, which replaces the entry of an existing key and adds
  a new key otherwise.

  \<open>json.Marshal\<close> of such a map writes a JSON object whose members are ordered by key
  (byte-wise string order). The encoding of a string as a JSON string literal is the
  parameter \<open>q\<close>; the encoding of a member's value is \<open>enc\<close>, which may fail, and the first
  failure is the result of the whole call.
\<close>

fun encodeMembers :: "(string \<Rightarrow> string) \<Rightarrow> ('a \<Rightarrow> error + string) \<Rightarrow> (string \<times> 'a) list \<Rightarrow> error + string list" where
  "encodeMembers q enc [] = Inr []"
| "encodeMembers q enc ((k, v) # kvs) =
     (case enc v of
        Inl err \<Rightarrow> Inl err
      | Inr s \<Rightarrow> (case encodeMembers q enc kvs of
                    Inl err \<Rightarrow> Inl err
                  | Inr ss \<Rightarrow> Inr ((q k @ '':'' @ s) # ss)))"

definition members :: "(string \<times> 'a) list \<Rightarrow> (string \<times> 'a) list" where
  "members m = map (\<lambda>k. (k, the (map_of m k))) (sort (map fst m))"

definition Marshal :: "(string \<Rightarrow> string) \<Rightarrow> ('a \<Rightarrow> error + string) \<Rightarrow> (string \<times> 'a) list \<Rightarrow> error + string" where
  "Marshal q enc m =
     (case encodeMembers q enc (members m) of
        Inl err \<Rightarrow> Inl err
      | Inr ss \<Rightarrow> Inr (''{'' @ Join ss '','' @ ''}''))"

section \<open>The cookie-store provider and the program state\<close>

text \<open>
  The provider is the external library. \<open>kooky.FindAllCookieStores\<close> returns the stores; a
  store has an identity (\<open>handle\<close>), a browser name, a read operation that takes the filter
  list and returns a cookie slice together with an optional error (both are used by the
  caller), and \<open>Close\<close>. A call into the library may also panic. The calls the program makes
  are recorded, in order, in \<open>calls\<close>.
\<close>

datatype filter = Valid | DomainContains string

datatype 'v read_result = ReadReturns "'v Cookie list" "string option" | ReadPanics string

record 'v CookieStore =
  handle :: nat
  Browser :: string
  ReadCookies :: "filter list \<Rightarrow> 'v read_result"

datatype event = FindAllCookieStores | ReadCall nat "filter list" | CloseCall nat

text \<open>The package-level variables of the program, then standard output and the call record.\<close>

record globals =
  browser :: string
  curl :: bool
  domain :: string
  name :: string
  fullCookieInfo :: bool
  showExpired :: bool
  "help" :: bool
  cookieStoreErrors :: "string list"
  debug :: bool

record state = globals +
  stdout :: "string list"
  calls :: "event list"

text \<open>A function returns, or the process exits with a status, or a panic propagates.\<close>

datatype 'a outcome = Returns 'a | Exits int | Panics string

definition Println :: "string \<Rightarrow> state \<Rightarrow> state" where
  "Println s st = st\<lparr>stdout := stdout st @ [s]\<rparr>"

section \<open>Flag resolution\<close>

text \<open>
  \<open>parseFlags\<close> after \<open>pflag.Parse\<close>: the flag variables hold the parsed values and
  \<open>nflag\<close> is \<open>pflag.NFlag()\<close>, the number of flags that were set. \<open>printUsage\<close> prints
  two lines (the flag defaults go to standard error) and exits with status 0.
\<close>

definition printUsage :: "state \<Rightarrow> error option outcome \<times> state" where
  "printUsage st =
     (Exits 0, Println (CHR 0x0A # ''Use with the following flags:'')
                 (Println ''Obtain cookies from your browser stores'' st))"

definition parseFlags :: "nat \<Rightarrow> state \<Rightarrow> error option outcome \<times> state" where
  "parseFlags nflag st =
     (if help st \<or> nflag = 0 then printUsage st
      else if domain st = [] then
        (Returns (Some (ConfigError ''flag domain is required, use either -d $DOMAIN or --domain $DOMAIN'')), st)
      else if curl st \<and> name st \<noteq> [] then
        (Returns (Some (ConfigError ''flag 'curl' and flag 'name' are mutually exclusive'')), st)
      else (Returns None, st))"

section \<open>Store enumeration and aggregation\<close>

text \<open>
  The loop of \<open>getCookies\<close>. Each iteration first registers the deferred \<open>Close\<close> of the
  store (\<open>deferred\<close> is the stack of deferred calls, most recent first), then skips a store
  of another browser, builds the filters, reads, records the error text if there is one,
  and appends whatever cookies the read returned. The first component of the result is the
  panic message when a read panicked, which ends the loop.
\<close>

definition filters :: "state \<Rightarrow> string \<Rightarrow> filter list" where
  "filters st d = (if \<not> showExpired st then [Valid] else []) @ [DomainContains d]"

fun getCookies_loop ::
  "string \<Rightarrow> string \<Rightarrow> 'v CookieStore list \<Rightarrow> 'v Cookie list option \<Rightarrow> nat list \<Rightarrow> state
     \<Rightarrow> string option \<times> 'v Cookie list option \<times> nat list \<times> state" where
  "getCookies_loop b d [] cookies deferred st = (None, cookies, deferred, st)"
| "getCookies_loop b d (store # stores) cookies deferred st =
     (if Browser store \<noteq> b then getCookies_loop b d stores cookies (handle store # deferred) st
      else
        (case ReadCookies store (filters st d) of
           ReadPanics msg \<Rightarrow>
             (Some msg, cookies, handle store # deferred,
              st\<lparr>calls := calls st @ [ReadCall (handle store) (filters st d)]\<rparr>)
         | ReadReturns storeCookies err \<Rightarrow>
             getCookies_loop b d stores (append_slice cookies storeCookies) (handle store # deferred)
               (st\<lparr>calls := calls st @ [ReadCall (handle store) (filters st d)],
                   cookieStoreErrors := (case err of None \<Rightarrow> cookieStoreErrors st
                                         | Some e \<Rightarrow> cookieStoreErrors st @ [e])\<rparr>)))"

text \<open>
  \<open>getCookies\<close>: enumerate, loop, then decide the result from \<open>cookies == nil\<close>. The
  deferred calls run when the function is left, by return or by panic, last registered
  first.
\<close>

definition getCookies ::
  "'v CookieStore list \<Rightarrow> string \<Rightarrow> string \<Rightarrow> state \<Rightarrow> (error + 'v Cookie list) outcome \<times> state" where
  "getCookies provider b d st =
     (case getCookies_loop b d provider None [] (st\<lparr>calls := calls st @ [FindAllCookieStores]\<rparr>) of
        (panic, cookies, deferred, st') \<Rightarrow>
          (case panic of
             Some msg \<Rightarrow> Panics msg
           | None \<Rightarrow>
               (case cookies of
                  None \<Rightarrow> Returns (Inl (NotFoundError
                            (''no cookies for browser '' @ b @ '' and domain '' @ d @ '' found.'')))
                | Some cs \<Rightarrow> Returns (Inr cs)),
           st'\<lparr>calls := calls st' @ map CloseCall deferred\<rparr>))"

section \<open>Output formatters\<close>

definition cookiesMap :: "'v Cookie list \<Rightarrow> (string \<times> string) list" where
  "cookiesMap cookies = fold (\<lambda>item m. AList.update (Name item) (Value item) m) cookies []"

definition serializeCookiesToJson :: "(string \<Rightarrow> string) \<Rightarrow> 'v Cookie list \<Rightarrow> error + string" where
  "serializeCookiesToJson q cookies =
     (case Marshal q (\<lambda>v. Inr (q v)) (cookiesMap cookies) of
        Inl err \<Rightarrow> Inl err
      | Inr cookiesJsonBytes \<Rightarrow> Inr cookiesJsonBytes)"

text \<open>
  The inner loop of \<open>serializeFullCookieInfoToJson\<close> over the reflected fields of one
  cookie, and the outer loop over the cookies. The variable \<open>browser\<close> is the global one.
\<close>

definition cookieMap :: "state \<Rightarrow> 'v Cookie \<Rightarrow> (string \<times> 'v) list" where
  "cookieMap st item =
     fold (\<lambda>(fieldName, v) m.
             if fieldName = ''Container'' \<and> browser st \<noteq> ''firefox'' then m
             else AList.update fieldName v m)
          (Fields item) []"

definition fullCookiesMap :: "state \<Rightarrow> 'v Cookie list \<Rightarrow> (string \<times> (string \<times> 'v) list) list" where
  "fullCookiesMap st cookies = fold (\<lambda>item m. AList.update (Name item) (cookieMap st item) m) cookies []"

definition serializeFullCookieInfoToJson ::
  "(string \<Rightarrow> string) \<Rightarrow> ('v \<Rightarrow> error + string) \<Rightarrow> state \<Rightarrow> 'v Cookie list \<Rightarrow> error + string" where
  "serializeFullCookieInfoToJson q encv st cookies =
     (case Marshal q (Marshal q encv) (fullCookiesMap st cookies) of
        Inl err \<Rightarrow> Inl err
      | Inr cookiesJsonBytes \<Rightarrow> Inr cookiesJsonBytes)"

definition createCurlCommand :: "'v Cookie list \<Rightarrow> string \<Rightarrow> string" where
  "createCurlCommand cookies d =
     (let cookieParts = fold (\<lambda>cookie parts. parts @ [Name cookie @ ''='' @ Value cookie]) cookies [];
          cookieString = Join cookieParts '';''
      in ''curl -H 'Cookie: '' @ cookieString @ [CHR 0x27] @ '' 'https://'' @ d @ [CHR 0x27])"

section \<open>Single-value lookup\<close>

text \<open>
  \<open>getCookieValue\<close>: the \<open>for ... range\<close> loop returns at the first cookie whose name
  equals the requested one; falling out of the loop gives the "does not exist" error.
\<close>

fun getCookieValue :: "'v Cookie list \<Rightarrow> string \<Rightarrow> error + string" where
  "getCookieValue [] nm = Inl (NotFoundError ''cookie does not exist'')"
| "getCookieValue (cookie # cookies) nm =
     (if nm = Name cookie then
        (if Value cookie = [] then Inl (EmptyValueError ''cookie exists but has an empty value'')
         else Inr (Value cookie))
      else getCookieValue cookies nm)"


section \<open>Store error reporting\<close>

definition jsonErrors :: "string list \<Rightarrow> (string \<times> string) list" where
  "jsonErrors errs = fold (\<lambda>(i, v) m. AList.update (Itoa (int i + 1)) v m) (enumerate 0 errs) []"

definition formatStoreErrorsAsJson :: "(string \<Rightarrow> string) \<Rightarrow> state \<Rightarrow> error + string" where
  "formatStoreErrorsAsJson q st =
     (case Marshal q (\<lambda>v. Inr (q v)) (jsonErrors (cookieStoreErrors st)) of
        Inl err \<Rightarrow> Inl err
      | Inr jsonErrorsString \<Rightarrow> Inr jsonErrorsString)"

section \<open>The program\<close>

text \<open>
  \<open>run\<close>, statement by statement. \<open>main\<close> turns a returned error into \<open>log.Fatal\<close>, which
  exits with status 1; an unrecovered panic exits with status 2.
\<close>

definition run ::
  "(string \<Rightarrow> string) \<Rightarrow> ('v \<Rightarrow> error + string) \<Rightarrow> nat \<Rightarrow> 'v CookieStore list \<Rightarrow> state
     \<Rightarrow> error option outcome \<times> state" where
  "run q encv nflag provider st0 =
     (case parseFlags nflag st0 of
        (Exits c, st) \<Rightarrow> (Exits c, st)
      | (Panics msg, st) \<Rightarrow> (Panics msg, st)
      | (Returns (Some err), st) \<Rightarrow> (Returns (Some (Wrapped ''incorrect flag usage: '' err)), st)
      | (Returns None, st) \<Rightarrow>
          (case getCookies provider (browser st) (domain st) st of
             (Exits c, st) \<Rightarrow> (Exits c, st)
           | (Panics msg, st) \<Rightarrow> (Panics msg, st)
           | (Returns (Inl err), st) \<Rightarrow> (Returns (Some (Wrapped ''failed to obtain cookies: '' err)), st)
           | (Returns (Inr cookies), st) \<Rightarrow>
               (case (if debug st then formatStoreErrorsAsJson q st else Inr []) of
                  Inl err \<Rightarrow> (Returns (Some (Wrapped ''failed to marshal errors to json: '' err)), st)
                | Inr jsonCookieStoreErrors \<Rightarrow>
                    (let st = (if debug st then Println jsonCookieStoreErrors st else st) in
                     if name st \<noteq> [] then
                       (case getCookieValue cookies (name st) of
                          Inl err \<Rightarrow> (Returns (Some (Wrapped (''failed to get value for cookie '' @ name st @ '': '') err)), st)
                        | Inr cookie_value \<Rightarrow> (Returns None, Println cookie_value st))
                     else if curl st then
                       (Returns None, Println (createCurlCommand cookies (domain st)) st)
                     else if fullCookieInfo st then
                       (case serializeFullCookieInfoToJson q encv st cookies of
                          Inl err \<Rightarrow> (Returns (Some (Wrapped ''failed to create JSON: '' err)), st)
                        | Inr cookieJson \<Rightarrow> (Returns None, Println cookieJson st))
                     else
                       (case serializeCookiesToJson q cookies of
                          Inl err \<Rightarrow> (Returns (Some (Wrapped ''failed to create JSON: '' err)), st)
                        | Inr cookieJson \<Rightarrow> (Returns None, Println cookieJson st))))))"

definition main :: "(string \<Rightarrow> string) \<Rightarrow> ('v \<Rightarrow> error + string) \<Rightarrow> nat \<Rightarrow> 'v CookieStore list \<Rightarrow> state \<Rightarrow> int \<times> state" where
  "main q encv nflag provider st0 =
     (case run q encv nflag provider st0 of
        (Returns None, st) \<Rightarrow> (0, st)
      | (Returns (Some err), st) \<Rightarrow> (1, st)
      | (Exits c, st) \<Rightarrow> (c, st)
      | (Panics msg, st) \<Rightarrow> (2, st))"

section \<open>Notions used to state the properties\<close>

text \<open>
  What a read gave back: whether it panicked, the cookies it returned and the error text it
  returned (as a list of at most one text).
\<close>

fun read_panics :: "'v read_result \<Rightarrow> bool" where
  "read_panics (ReadPanics msg) = True"
| "read_panics (ReadReturns cs err) = False"

fun returned_cookies :: "'v read_result \<Rightarrow> 'v Cookie list" where
  "returned_cookies (ReadPanics msg) = []"
| "returned_cookies (ReadReturns cs err) = cs"

fun returned_error :: "'v read_result \<Rightarrow> string list" where
  "returned_error (ReadReturns cs (Some e)) = [e]"
| "returned_error r = []"

text \<open>
  The stores of the requested browser, in enumeration order; a store whose read panics when
  it is reached; the concatenation of the cookies returned by the reads of the selected
  stores; the error texts returned by those reads.
\<close>

definition selected :: "string \<Rightarrow> 'v CookieStore list \<Rightarrow> 'v CookieStore list" where
  "selected b stores = filter (\<lambda>s. Browser s = b) stores"

definition panicking :: "string \<Rightarrow> filter list \<Rightarrow> 'v CookieStore \<Rightarrow> bool" where
  "panicking b fs s = (Browser s = b \<and> read_panics (ReadCookies s fs))"

definition aggregate :: "string \<Rightarrow> filter list \<Rightarrow> 'v CookieStore list \<Rightarrow> 'v Cookie list" where
  "aggregate b fs stores = concat (map (\<lambda>s. returned_cookies (ReadCookies s fs)) (selected b stores))"

definition store_errors :: "string \<Rightarrow> filter list \<Rightarrow> 'v CookieStore list \<Rightarrow> string list" where
  "store_errors b fs stores = concat (map (\<lambda>s. returned_error (ReadCookies s fs)) (selected b stores))"

text \<open>
  The cookie header the curl formatter is specified to build: \<open>name=value\<close> for every record, in
  order, separated by semicolons.
\<close>

fun cookie_header :: "'v Cookie list \<Rightarrow> string" where
  "cookie_header [] = []"
| "cookie_header [c] = Name c @ ''='' @ Value c"
| "cookie_header (c # c' # cs) = Name c @ ''='' @ Value c @ '';'' @ cookie_header (c' # cs)"

text \<open>The value of a string of decimal digits, used to show that \<open>Itoa\<close> keeps indices apart.\<close>

definition digits_value :: "string \<Rightarrow> nat" where
  "digits_value s = foldl (\<lambda>acc c. 10 * acc + (of_char c - 48)) 0 s"

section \<open>Example values\<close>

text \<open>
  A cookie with three reflected fields, a store whose read gives a fixed result, and the
  state left by parsing \<open>-d example.com\<close>.
\<close>

definition example_cookie :: "string \<Rightarrow> string \<Rightarrow> string Cookie" where
  "example_cookie n v = \<lparr>Name = n, Value = v, Fields = [(''Name'', n), (''Value'', v), (''Container'', ''work'')]\<rparr>"

definition example_store :: "nat \<Rightarrow> string \<Rightarrow> string read_result \<Rightarrow> string CookieStore" where
  "example_store h b r = \<lparr>handle = h, Browser = b, ReadCookies = (\<lambda>fs. r)\<rparr>"

definition example_state :: state where
  "example_state = \<lparr>browser = ''chrome'', curl = False, domain = ''example.com'', name = [],
     fullCookieInfo = False, showExpired = False, help = False, cookieStoreErrors = [],
     debug = False, stdout = [], calls = []\<rparr>"

text \<open>A string encoder that only adds the surrounding double quotes, for the examples.\<close>

definition identity_quote :: "string \<Rightarrow> string" where
  "identity_quote s = [CHR 0x22] @ s @ [CHR 0x22]"

section \<open>Properties of the single-value lookup\<close>

lemma getCookieValue_skip:
  "\<forall>d \<in> set pre. Name d \<noteq> nm \<Longrightarrow> getCookieValue (pre @ rest) nm = getCookieValue rest nm"
  by (induction pre) auto

text \<open>
  Claim C3. The lookup depends on the sequence and the name only. With \<open>c\<close> the first
  record whose name equals the requested name (everything before it has another name), the
  result is the value of \<open>c\<close> when that value is non-empty and the empty-value error when it
  is empty; when no record has the requested name the result is the not-found error.
\<close>

theorem getCookieValue_first_match:
  "(\<forall>pre c post. cookies = pre @ c # post \<and> (\<forall>d \<in> set pre. Name d \<noteq> nm) \<and> Name c = nm \<longrightarrow>
      getCookieValue cookies nm =
        (if Value c = [] then Inl (EmptyValueError ''cookie exists but has an empty value'')
         else Inr (Value c)))
   \<and> ((\<forall>d \<in> set cookies. Name d \<noteq> nm) \<longrightarrow>
      getCookieValue cookies nm = Inl (NotFoundError ''cookie does not exist''))"
proof (intro conjI allI impI)
  fix pre c post
  assume h: "cookies = pre @ c # post \<and> (\<forall>d \<in> set pre. Name d \<noteq> nm) \<and> Name c = nm"
  then have "getCookieValue cookies nm = getCookieValue (c # post) nm"
    using getCookieValue_skip [of pre nm "c # post"] by simp
  with h show "getCookieValue cookies nm =
        (if Value c = [] then Inl (EmptyValueError ''cookie exists but has an empty value'')
         else Inr (Value c))"
    by simp
next
  assume "\<forall>d \<in> set cookies. Name d \<noteq> nm"
  then show "getCookieValue cookies nm = Inl (NotFoundError ''cookie does not exist'')"
    using getCookieValue_skip [of cookies nm "[]"] by simp
qed

theorem getCookieValue_first_match_witness:
  "getCookieValue [example_cookie ''theme'' ''dark'', example_cookie ''sid'' ''abc'',
                   example_cookie ''sid'' []] ''sid'' = Inr ''abc''
   \<and> getCookieValue [example_cookie ''theme'' ''dark'', example_cookie ''sid'' [],
                     example_cookie ''sid'' ''abc''] ''sid''
       = Inl (EmptyValueError ''cookie exists but has an empty value'')
   \<and> getCookieValue [example_cookie ''theme'' ''dark''] ''Theme''
       = Inl (NotFoundError ''cookie does not exist'')"
  using getCookieValue_first_match
    [of "[example_cookie ''theme'' ''dark'', example_cookie ''sid'' ''abc'', example_cookie ''sid'' []]"
        "''sid''"]
    getCookieValue_first_match
    [of "[example_cookie ''theme'' ''dark'', example_cookie ''sid'' [], example_cookie ''sid'' ''abc'']"
        "''sid''"]
    getCookieValue_first_match [of "[example_cookie ''theme'' ''dark'']" "''Theme''"]
  by (simp add: example_cookie_def)

section \<open>Properties of the aggregation\<close>

lemma filters_upd [simp]:
  "filters (st\<lparr>calls := c\<rparr>) d = filters st d"
  "filters (st\<lparr>cookieStoreErrors := e\<rparr>) d = filters st d"
  by (simp_all add: filters_def)

lemma append_slice_assoc: "append_slice (append_slice c xs) ys = append_slice c (xs @ ys)"
  by (cases c) auto

lemma append_slice_Nil [simp]: "append_slice c [] = c"
  by (cases c) auto

lemma loop_prefix:
  "\<forall>x \<in> set pre. \<not> panicking b (filters st d) x \<Longrightarrow>
   getCookies_loop b d (pre @ rest) cookies deferred st =
   getCookies_loop b d rest (append_slice cookies (aggregate b (filters st d) pre))
     (rev (map handle pre) @ deferred)
     (st\<lparr>calls := calls st @ map (\<lambda>s. ReadCall (handle s) (filters st d)) (selected b pre),
         cookieStoreErrors := cookieStoreErrors st @ store_errors b (filters st d) pre\<rparr>)"
proof (induction pre arbitrary: cookies deferred st)
  case Nil
  then show ?case by (simp add: aggregate_def selected_def store_errors_def)
next
  case (Cons s pre)
  show ?case
  proof (cases "Browser s = b")
    case False
    then show ?thesis using Cons
      by (simp add: aggregate_def selected_def store_errors_def panicking_def)
  next
    case True
    with Cons.prems obtain cs err where r: "ReadCookies s (filters st d) = ReadReturns cs err"
      by (cases "ReadCookies s (filters st d)") (auto simp: panicking_def)
    let ?st1 = "st\<lparr>calls := calls st @ [ReadCall (handle s) (filters st d)],
                   cookieStoreErrors := cookieStoreErrors st @ returned_error (ReadReturns cs err)\<rparr>"
    have np: "\<forall>x \<in> set pre. \<not> panicking b (filters ?st1 d) x"
      using Cons.prems by simp
    have "getCookies_loop b d ((s # pre) @ rest) cookies deferred st =
          getCookies_loop b d (pre @ rest) (append_slice cookies cs) (handle s # deferred) ?st1"
      using True r by (cases err) simp_all
    also have "\<dots> = getCookies_loop b d rest
        (append_slice (append_slice cookies cs) (aggregate b (filters ?st1 d) pre))
        (rev (map handle pre) @ handle s # deferred)
        (?st1\<lparr>calls := calls ?st1 @ map (\<lambda>s. ReadCall (handle s) (filters ?st1 d)) (selected b pre),
              cookieStoreErrors := cookieStoreErrors ?st1 @ store_errors b (filters ?st1 d) pre\<rparr>)"
      by (rule Cons.IH [OF np])
    finally show ?thesis using True r
      by (simp add: append_slice_assoc aggregate_def selected_def store_errors_def)
  qed
qed

lemma loop_no_panic:
  assumes "\<forall>x \<in> set stores. \<not> panicking b (filters st d) x"
  shows "getCookies_loop b d stores cookies deferred st =
     (None, append_slice cookies (aggregate b (filters st d) stores),
      rev (map handle stores) @ deferred,
      st\<lparr>calls := calls st @ map (\<lambda>s. ReadCall (handle s) (filters st d)) (selected b stores),
         cookieStoreErrors := cookieStoreErrors st @ store_errors b (filters st d) stores\<rparr>)"
  using loop_prefix [OF assms, of "[]" cookies deferred] by simp

lemma loop_deferred:
  "getCookies_loop b d stores cookies deferred st = (p, cookies', deferred', st') \<Longrightarrow>
   (\<exists>new. deferred' = new @ deferred \<and> set new \<subseteq> handle ` set stores)
   \<and> count_list (calls st') (CloseCall h) = count_list (calls st) (CloseCall h)"
proof (induction stores arbitrary: cookies deferred st)
  case Nil
  then show ?case by simp
next
  case (Cons s stores)
  show ?case
  proof (cases "Browser s = b")
    case False
    with Cons.prems have "getCookies_loop b d stores cookies (handle s # deferred) st = (p, cookies', deferred', st')"
      by simp
    from Cons.IH [OF this] obtain new where "deferred' = new @ handle s # deferred" "set new \<subseteq> handle ` set stores"
      and c: "count_list (calls st') (CloseCall h) = count_list (calls st) (CloseCall h)" by blast
    then have "deferred' = (new @ [handle s]) @ deferred \<and> set (new @ [handle s]) \<subseteq> handle ` set (s # stores)"
      by auto
    with c show ?thesis by blast
  next
    case True
    show ?thesis
    proof (cases "ReadCookies s (filters st d)")
      case (ReadPanics msg)
      with True Cons.prems have "deferred' = [handle s] @ deferred" "calls st' = calls st @ [ReadCall (handle s) (filters st d)]"
        by auto
      then show ?thesis by auto
    next
      case (ReadReturns cs err)
      let ?st1 = "st\<lparr>calls := calls st @ [ReadCall (handle s) (filters st d)],
                   cookieStoreErrors := (case err of None \<Rightarrow> cookieStoreErrors st | Some e \<Rightarrow> cookieStoreErrors st @ [e])\<rparr>"
      from True ReadReturns Cons.prems
      have "getCookies_loop b d stores (append_slice cookies cs) (handle s # deferred) ?st1 = (p, cookies', deferred', st')"
        by simp
      from Cons.IH [OF this] obtain new where "deferred' = new @ handle s # deferred" "set new \<subseteq> handle ` set stores"
        and c: "count_list (calls st') (CloseCall h) = count_list (calls ?st1) (CloseCall h)" by blast
      then have "deferred' = (new @ [handle s]) @ deferred \<and> set (new @ [handle s]) \<subseteq> handle ` set (s # stores)"
        by auto
      with c show ?thesis by auto
    qed
  qed
qed

lemma getCookies_no_panic:
  assumes "\<forall>x \<in> set provider. \<not> panicking b (filters st d) x"
  shows "getCookies provider b d st =
    ((case append_slice None (aggregate b (filters st d) provider) of
        None \<Rightarrow> Returns (Inl (NotFoundError (''no cookies for browser '' @ b @ '' and domain '' @ d @ '' found.'')))
      | Some cs \<Rightarrow> Returns (Inr cs)),
     st\<lparr>calls := calls st @ [FindAllCookieStores]
            @ map (\<lambda>s. ReadCall (handle s) (filters st d)) (selected b provider)
            @ map CloseCall (rev (map handle provider)),
        cookieStoreErrors := cookieStoreErrors st @ store_errors b (filters st d) provider\<rparr>)"
proof -
  have "\<forall>x \<in> set provider. \<not> panicking b (filters (st\<lparr>calls := calls st @ [FindAllCookieStores]\<rparr>) d) x"
    using assms by simp
  from loop_no_panic [OF this, of None "[]"] show ?thesis
    by (simp add: getCookies_def)
qed

lemma loop_deferred_head:
  assumes "getCookies_loop b d (s # post) cookies deferred st = (p, cookies', deferred', st')"
  shows "(\<exists>new. deferred' = new @ handle s # deferred \<and> set new \<subseteq> handle ` set post)
       \<and> count_list (calls st') (CloseCall h) = count_list (calls st) (CloseCall h)"
proof (cases "Browser s = b")
  case False
  with assms have "getCookies_loop b d post cookies (handle s # deferred) st = (p, cookies', deferred', st')"
    by simp
  from loop_deferred [OF this] show ?thesis by blast
next
  case True
  show ?thesis
  proof (cases "ReadCookies s (filters st d)")
    case (ReadPanics msg)
    with True assms have "deferred' = [] @ handle s # deferred"
      "calls st' = calls st @ [ReadCall (handle s) (filters st d)]"
      by auto
    then show ?thesis by auto
  next
    case (ReadReturns cs err)
    let ?st1 = "st\<lparr>calls := calls st @ [ReadCall (handle s) (filters st d)],
                 cookieStoreErrors := (case err of None \<Rightarrow> cookieStoreErrors st | Some e \<Rightarrow> cookieStoreErrors st @ [e])\<rparr>"
    from True ReadReturns assms
    have "getCookies_loop b d post (append_slice cookies cs) (handle s # deferred) ?st1 = (p, cookies', deferred', st')"
      by simp
    from loop_deferred [OF this, of h] show ?thesis by auto
  qed
qed

text \<open>
  Claim C1, as the code has it. When no read panics, the result sequence is the
  concatenation, in enumeration order, of the cookie sequences returned by the reads of the
  stores of the requested browser, each in its own order; this includes the cookies a read
  returns together with an error. The error text of every such read is appended to the
  Store Error list in encounter order, and the operation returns (it is not aborted) however
  many reads returned an error.
\<close>

theorem getCookies_aggregates:
  assumes "\<forall>s \<in> set provider. \<not> panicking b (filters st d) s"
  shows "(aggregate b (filters st d) provider \<noteq> [] \<longrightarrow>
            fst (getCookies provider b d st) = Returns (Inr (aggregate b (filters st d) provider)))
       \<and> cookieStoreErrors (snd (getCookies provider b d st)) =
            cookieStoreErrors st @ store_errors b (filters st d) provider
       \<and> (\<exists>r. fst (getCookies provider b d st) = Returns r)"
  by (simp add: getCookies_no_panic [OF assms] split: option.split)

theorem getCookies_aggregates_witness:
  "fst (getCookies
      [example_store 1 ''chrome'' (ReadReturns [example_cookie ''sid'' ''abc'', example_cookie ''theme'' ''dark''] None),
       example_store 2 ''firefox'' (ReadReturns [example_cookie ''fx'' ''1''] None),
       example_store 3 ''chrome'' (ReadReturns [] (Some ''locked'')),
       example_store 4 ''chrome'' (ReadReturns [example_cookie ''lang'' ''en''] None)]
      ''chrome'' ''example.com'' example_state)
     = Returns (Inr [example_cookie ''sid'' ''abc'', example_cookie ''theme'' ''dark'', example_cookie ''lang'' ''en''])
   \<and> cookieStoreErrors (snd (getCookies
      [example_store 1 ''chrome'' (ReadReturns [example_cookie ''sid'' ''abc'', example_cookie ''theme'' ''dark''] None),
       example_store 2 ''firefox'' (ReadReturns [example_cookie ''fx'' ''1''] None),
       example_store 3 ''chrome'' (ReadReturns [] (Some ''locked'')),
       example_store 4 ''chrome'' (ReadReturns [example_cookie ''lang'' ''en''] None)]
      ''chrome'' ''example.com'' example_state)) = [''locked'']"
  using getCookies_aggregates [of
      "[example_store 1 ''chrome'' (ReadReturns [example_cookie ''sid'' ''abc'', example_cookie ''theme'' ''dark''] None),
       example_store 2 ''firefox'' (ReadReturns [example_cookie ''fx'' ''1''] None),
       example_store 3 ''chrome'' (ReadReturns [] (Some ''locked'')),
       example_store 4 ''chrome'' (ReadReturns [example_cookie ''lang'' ''en''] None)]"
      "''chrome''" example_state "''example.com''"]
  by (simp add: example_store_def example_state_def panicking_def aggregate_def selected_def store_errors_def)

text \<open>
  The claim as it is written says that no cookie of a failed read reaches the aggregate.
  A read that returns one cookie together with the error "decrypt" has its error recorded and
  its cookie in the result.
\<close>

theorem getCookies_errored_read_counterexample:
  "returned_error (ReadCookies
      (example_store 1 ''chrome'' (ReadReturns [example_cookie ''p'' ''partial''] (Some ''decrypt'')))
      (filters example_state ''example.com'')) = [''decrypt'']
   \<and> fst (getCookies
      [example_store 1 ''chrome'' (ReadReturns [example_cookie ''p'' ''partial''] (Some ''decrypt''))]
      ''chrome'' ''example.com'' example_state) = Returns (Inr [example_cookie ''p'' ''partial''])"
  by (simp add: example_store_def example_state_def getCookies_def)

text \<open>
  Claim C4, as the code has it. When no read panics, the aggregation fails exactly when the
  concatenation of the cookie sequences returned by the reads of the selected stores is
  empty, cookies returned together with an error included; the failure is the not-found
  error, and a non-empty concatenation gives a successful result whatever errors were
  recorded.
\<close>

theorem getCookies_not_found_iff:
  assumes "\<forall>s \<in> set provider. \<not> panicking b (filters st d) s"
  shows "(fst (getCookies provider b d st) =
            Returns (Inl (NotFoundError (''no cookies for browser '' @ b @ '' and domain '' @ d @ '' found.'')))
          \<longleftrightarrow> aggregate b (filters st d) provider = [])
       \<and> (\<forall>e. fst (getCookies provider b d st) = Returns (Inl e) \<longrightarrow>
            aggregate b (filters st d) provider = [])
       \<and> (aggregate b (filters st d) provider \<noteq> [] \<longrightarrow>
            (\<exists>cs. fst (getCookies provider b d st) = Returns (Inr cs)))"
  by (simp add: getCookies_no_panic [OF assms] split: option.split)

theorem getCookies_not_found_iff_witness:
  "fst (getCookies
      [example_store 1 ''firefox'' (ReadReturns [example_cookie ''fx'' ''1''] None),
       example_store 2 ''chrome'' (ReadReturns [] (Some ''locked''))]
      ''chrome'' ''example.com'' example_state)
     = Returns (Inl (NotFoundError ''no cookies for browser chrome and domain example.com found.''))
   \<and> (\<exists>cs. fst (getCookies
      [example_store 1 ''chrome'' (ReadReturns [example_cookie ''sid'' ''abc''] None),
       example_store 2 ''chrome'' (ReadReturns [] (Some ''locked''))]
      ''chrome'' ''example.com'' example_state) = Returns (Inr cs))"
  using getCookies_not_found_iff [of
      "[example_store 1 ''firefox'' (ReadReturns [example_cookie ''fx'' ''1''] None),
       example_store 2 ''chrome'' (ReadReturns [] (Some ''locked''))]"
      "''chrome''" example_state "''example.com''"]
    getCookies_not_found_iff [of
      "[example_store 1 ''chrome'' (ReadReturns [example_cookie ''sid'' ''abc''] None),
       example_store 2 ''chrome'' (ReadReturns [] (Some ''locked''))]"
      "''chrome''" example_state "''example.com''"]
  by (simp add: example_store_def example_state_def panicking_def aggregate_def selected_def)

text \<open>
  With the concatenation read as that of the reads without error only: both reads below
  return an error, so there is no cookie of an error-free read, and the aggregation does not
  fail.
\<close>

theorem getCookies_only_errored_reads_counterexample:
  "returned_error (ReadCookies
      (example_store 1 ''chrome'' (ReadReturns [example_cookie ''sid'' ''abc''] (Some ''decrypt'')))
      (filters example_state ''example.com'')) \<noteq> []
   \<and> returned_error (ReadCookies
      (example_store 2 ''chrome'' (ReadReturns [] (Some ''locked'')))
      (filters example_state ''example.com'')) \<noteq> []
   \<and> fst (getCookies
      [example_store 1 ''chrome'' (ReadReturns [example_cookie ''sid'' ''abc''] (Some ''decrypt'')),
       example_store 2 ''chrome'' (ReadReturns [] (Some ''locked''))]
      ''chrome'' ''example.com'' example_state)
     \<noteq> Returns (Inl (NotFoundError ''no cookies for browser chrome and domain example.com found.''))"
  by (simp add: example_store_def example_state_def getCookies_def)

text \<open>
  Claim C2, as the code has it. Let the enumeration be \<open>pre @ s # post\<close> with distinct store
  identities, and let no read of \<open>pre\<close> panic, so that the loop reaches \<open>s\<close>. Then
  \<open>getCookies\<close> closes \<open>s\<close> exactly once before it is left: the number of \<open>Close\<close> calls
  on \<open>s\<close> grows by one, whatever the browser of \<open>s\<close>, the result of its read (cookies, an
  error, or a panic) and the stores of \<open>post\<close>. When no read panics at all, this is every
  store of the enumeration. When the read of \<open>s\<close> panics, the loop ends there: the deferred
  calls registered so far run, and no store of \<open>post\<close> is closed.
\<close>

theorem getCookies_closes_once:
  assumes dist: "distinct (map handle provider)"
    and split: "provider = pre @ s # post"
    and np: "\<forall>x \<in> set pre. \<not> panicking b (filters st d) x"
  shows "count_list (calls (snd (getCookies provider b d st))) (CloseCall (handle s)) =
           count_list (calls st) (CloseCall (handle s)) + 1
       \<and> (panicking b (filters st d) s \<longrightarrow>
            (\<forall>t \<in> set post.
               count_list (calls (snd (getCookies provider b d st))) (CloseCall (handle t)) =
               count_list (calls st) (CloseCall (handle t))))"
proof
  let ?st1 = "st\<lparr>calls := calls st @ [FindAllCookieStores]\<rparr>"
  let ?st2 = "?st1\<lparr>calls := calls ?st1 @ map (\<lambda>s. ReadCall (handle s) (filters ?st1 d)) (selected b pre),
                   cookieStoreErrors := cookieStoreErrors ?st1 @ store_errors b (filters ?st1 d) pre\<rparr>"
  have np1: "\<forall>x \<in> set pre. \<not> panicking b (filters ?st1 d) x"
    using np by simp
  obtain p cookies' deferred' st' where
    r: "getCookies_loop b d (s # post) (append_slice None (aggregate b (filters ?st1 d) pre))
          (rev (map handle pre) @ []) ?st2 = (p, cookies', deferred', st')"
    by (metis prod_cases4)
  have l: "getCookies_loop b d provider None [] ?st1 = (p, cookies', deferred', st')"
    unfolding split loop_prefix [OF np1] by (rule r)
  have c2: "count_list (calls ?st2) (CloseCall h) = count_list (calls st) (CloseCall h)" for h
    by (simp add: count_list_0_iff image_iff)
  from loop_deferred_head [OF r, of "handle s"] obtain new where
    d: "deferred' = new @ handle s # rev (map handle pre)" and n: "set new \<subseteq> handle ` set post"
    and c: "count_list (calls st') (CloseCall (handle s)) = count_list (calls ?st2) (CloseCall (handle s))"
    by auto
  have "handle s \<notin> set new" "handle s \<notin> handle ` set pre"
    using dist n unfolding split by auto
  then have "count_list deferred' (handle s) = 1"
    unfolding d by simp
  then have "count_list (map CloseCall deferred') (CloseCall (handle s)) = 1"
    by (simp add: count_list_map_conv inj_def)
  with c c2 show "count_list (calls (snd (getCookies provider b d st))) (CloseCall (handle s)) =
           count_list (calls st) (CloseCall (handle s)) + 1"
    by (simp add: getCookies_def l)
  show "panicking b (filters st d) s \<longrightarrow>
            (\<forall>t \<in> set post.
               count_list (calls (snd (getCookies provider b d st))) (CloseCall (handle t)) =
               count_list (calls st) (CloseCall (handle t)))"
  proof (intro impI ballI)
    fix t
    assume ps: "panicking b (filters st d) s" and t: "t \<in> set post"
    from ps obtain msg where bs: "Browser s = b" and rp: "ReadCookies s (filters st d) = ReadPanics msg"
      by (cases "ReadCookies s (filters st d)") (auto simp: panicking_def)
    from r bs rp have d': "deferred' = handle s # rev (map handle pre)"
      and s': "calls st' = calls ?st2 @ [ReadCall (handle s) (filters st d)]"
      by auto
    have "handle t \<in> handle ` set post"
      using t by simp
    then have "handle t \<noteq> handle s" "handle t \<notin> handle ` set pre"
      using dist unfolding split by auto
    then have "count_list deferred' (handle t) = 0"
      unfolding d' by simp
    then have "count_list (map CloseCall deferred') (CloseCall (handle t)) = 0"
      by (simp add: count_list_map_conv inj_def)
    with s' c2 [of "handle t"]
    show "count_list (calls (snd (getCookies provider b d st))) (CloseCall (handle t)) =
               count_list (calls st) (CloseCall (handle t))"
      by (simp add: getCookies_def l)
  qed
qed

theorem getCookies_closes_once_witness:
  "count_list (calls (snd (getCookies
      [example_store 1 ''firefox'' (ReadReturns [example_cookie ''fx'' ''1''] None),
       example_store 2 ''chrome'' (ReadReturns [] (Some ''locked'')),
       example_store 3 ''chrome'' (ReadPanics ''corrupt database''),
       example_store 4 ''chrome'' (ReadReturns [example_cookie ''sid'' ''abc''] None)]
      ''chrome'' ''example.com'' example_state))) (CloseCall 2) = 1
   \<and> count_list (calls (snd (getCookies
      [example_store 1 ''firefox'' (ReadReturns [example_cookie ''fx'' ''1''] None),
       example_store 2 ''chrome'' (ReadReturns [] (Some ''locked'')),
       example_store 3 ''chrome'' (ReadPanics ''corrupt database''),
       example_store 4 ''chrome'' (ReadReturns [example_cookie ''sid'' ''abc''] None)]
      ''chrome'' ''example.com'' example_state))) (CloseCall 3) = 1
   \<and> count_list (calls (snd (getCookies
      [example_store 1 ''firefox'' (ReadReturns [example_cookie ''fx'' ''1''] None),
       example_store 2 ''chrome'' (ReadReturns [] (Some ''locked'')),
       example_store 3 ''chrome'' (ReadPanics ''corrupt database''),
       example_store 4 ''chrome'' (ReadReturns [example_cookie ''sid'' ''abc''] None)]
      ''chrome'' ''example.com'' example_state))) (CloseCall 4) = 0"
  using getCookies_closes_once [of
      "[example_store 1 ''firefox'' (ReadReturns [example_cookie ''fx'' ''1''] None),
       example_store 2 ''chrome'' (ReadReturns [] (Some ''locked'')),
       example_store 3 ''chrome'' (ReadPanics ''corrupt database''),
       example_store 4 ''chrome'' (ReadReturns [example_cookie ''sid'' ''abc''] None)]"
      "[example_store 1 ''firefox'' (ReadReturns [example_cookie ''fx'' ''1''] None)]"
      "example_store 2 ''chrome'' (ReadReturns [] (Some ''locked''))"
      "[example_store 3 ''chrome'' (ReadPanics ''corrupt database''),
        example_store 4 ''chrome'' (ReadReturns [example_cookie ''sid'' ''abc''] None)]"
      "''chrome''" example_state "''example.com''"]
    getCookies_closes_once [of
      "[example_store 1 ''firefox'' (ReadReturns [example_cookie ''fx'' ''1''] None),
       example_store 2 ''chrome'' (ReadReturns [] (Some ''locked'')),
       example_store 3 ''chrome'' (ReadPanics ''corrupt database''),
       example_store 4 ''chrome'' (ReadReturns [example_cookie ''sid'' ''abc''] None)]"
      "[example_store 1 ''firefox'' (ReadReturns [example_cookie ''fx'' ''1''] None),
        example_store 2 ''chrome'' (ReadReturns [] (Some ''locked''))]"
      "example_store 3 ''chrome'' (ReadPanics ''corrupt database'')"
      "[example_store 4 ''chrome'' (ReadReturns [example_cookie ''sid'' ''abc''] None)]"
      "''chrome''" example_state "''example.com''"]
  by (simp add: example_store_def example_state_def panicking_def)

text \<open>
  The claim as it is written has every enumerated store released. The deferred \<open>Close\<close> is
  registered inside the loop, so when the read of the second store panics the stores after
  it have no deferred call: the first two stores are closed and the third and fourth never
  are.
\<close>

theorem getCookies_panic_leaves_stores_open_counterexample:
  "fst (getCookies
      [example_store 1 ''chrome'' (ReadReturns [example_cookie ''sid'' ''abc''] None),
       example_store 2 ''chrome'' (ReadPanics ''corrupt database''),
       example_store 3 ''chrome'' (ReadReturns [example_cookie ''theme'' ''dark''] None),
       example_store 4 ''firefox'' (ReadReturns [] None)]
      ''chrome'' ''example.com'' example_state) = Panics ''corrupt database''
   \<and> calls (snd (getCookies
      [example_store 1 ''chrome'' (ReadReturns [example_cookie ''sid'' ''abc''] None),
       example_store 2 ''chrome'' (ReadPanics ''corrupt database''),
       example_store 3 ''chrome'' (ReadReturns [example_cookie ''theme'' ''dark''] None),
       example_store 4 ''firefox'' (ReadReturns [] None)]
      ''chrome'' ''example.com'' example_state))
     = [FindAllCookieStores,
        ReadCall 1 [Valid, DomainContains ''example.com''],
        ReadCall 2 [Valid, DomainContains ''example.com''],
        CloseCall 2, CloseCall 1]
   \<and> count_list (calls (snd (getCookies
      [example_store 1 ''chrome'' (ReadReturns [example_cookie ''sid'' ''abc''] None),
       example_store 2 ''chrome'' (ReadPanics ''corrupt database''),
       example_store 3 ''chrome'' (ReadReturns [example_cookie ''theme'' ''dark''] None),
       example_store 4 ''firefox'' (ReadReturns [] None)]
      ''chrome'' ''example.com'' example_state))) (CloseCall 3) = 0"
  by (simp add: example_store_def example_state_def getCookies_def filters_def)

section \<open>Properties of the curl formatter\<close>

lemma fold_snoc_map: "fold (\<lambda>x acc. acc @ [f x]) xs acc = acc @ map f xs"
  by (induction xs arbitrary: acc) auto

lemma Join_cookie_header:
  "Join (map (\<lambda>c. Name c @ ''='' @ Value c) cookies) '';'' = cookie_header cookies"
  by (induction cookies rule: cookie_header.induct) auto

text \<open>
  Claim C6. The curl formatter returns the fixed prefix, the cookie header, and the domain
  in single quotes after \<open>https://\<close>, the domain being inserted as given. The header has
  one \<open>name=value\<close> pair for every record of the sequence, in order, joined by semicolons,
  and records are never merged by name: two records named \<open>a\<close> with the values \<open>1\<close> and
  \<open>2\<close> give \<open>a=1;a=2\<close>.
\<close>

theorem createCurlCommand_format:
  "createCurlCommand cookies d =
     ''curl -H 'Cookie: '' @ cookie_header cookies @ [CHR 0x27] @ '' 'https://'' @ d @ [CHR 0x27]
   \<and> cookie_header [\<lparr>Name = ''a'', Value = ''1'', Fields = fs1\<rparr>, \<lparr>Name = ''a'', Value = ''2'', Fields = fs2\<rparr>]
       = ''a=1;a=2''"
  using Join_cookie_header [of cookies] by (simp add: createCurlCommand_def fold_snoc_map)

theorem createCurlCommand_format_witness:
  "createCurlCommand [example_cookie ''sid'' ''abc'', example_cookie ''theme'' ''dark''] ''example.com''
     = ''curl -H 'Cookie: sid=abc;theme=dark' 'https://example.com'' @ [CHR 0x27]
   \<and> createCurlCommand [example_cookie ''a'' ''1'', example_cookie ''a'' ''2''] ''example.com''
     = ''curl -H 'Cookie: a=1;a=2' 'https://example.com'' @ [CHR 0x27]"
  using createCurlCommand_format [of "[example_cookie ''sid'' ''abc'', example_cookie ''theme'' ''dark'']" "''example.com''"]
    createCurlCommand_format [of "[example_cookie ''a'' ''1'', example_cookie ''a'' ''2'']" "''example.com''"]
  by (simp add: example_cookie_def)

section \<open>Properties of flag resolution\<close>

text \<open>
  Claim C7, as the code has it. The usage branch comes first: with \<open>help\<close> set, or with no
  flag at all, the process prints the usage text and exits with status 0, whatever the
  other flags are. Otherwise flag resolution fails with a configuration error when the domain
  is empty, and fails with a configuration error when \<open>curl\<close> is set together with a
  non-empty name; in both cases \<open>run\<close> returns that error with the state unchanged, so no
  store has been enumerated or read and nothing has been printed.
\<close>

theorem parseFlags_config_errors:
  assumes "\<not> help st" and "nflag \<noteq> 0"
  shows "(domain st = [] \<longrightarrow>
            parseFlags nflag st =
              (Returns (Some (ConfigError ''flag domain is required, use either -d $DOMAIN or --domain $DOMAIN'')), st)
          \<and> run q encv nflag provider st =
              (Returns (Some (Wrapped ''incorrect flag usage: ''
                 (ConfigError ''flag domain is required, use either -d $DOMAIN or --domain $DOMAIN''))), st))
       \<and> (curl st \<and> name st \<noteq> [] \<longrightarrow>
            (\<exists>msg. parseFlags nflag st = (Returns (Some (ConfigError msg)), st)
               \<and> run q encv nflag provider st =
                   (Returns (Some (Wrapped ''incorrect flag usage: '' (ConfigError msg))), st)))
       \<and> (domain st \<noteq> [] \<and> curl st \<and> name st \<noteq> [] \<longrightarrow>
            parseFlags nflag st =
              (Returns (Some (ConfigError ''flag 'curl' and flag 'name' are mutually exclusive'')), st))"
  using assms by (simp add: parseFlags_def run_def)

theorem parseFlags_config_errors_witness:
  "run identity_quote (\<lambda>v. Inr (identity_quote v)) 2
      [example_store 1 ''chrome'' (ReadReturns [example_cookie ''sid'' ''abc''] None)]
      (example_state\<lparr>curl := True, name := ''sid''\<rparr>)
     = (Returns (Some (Wrapped ''incorrect flag usage: ''
          (ConfigError ''flag 'curl' and flag 'name' are mutually exclusive''))),
        example_state\<lparr>curl := True, name := ''sid''\<rparr>)
   \<and> calls (snd (run identity_quote (\<lambda>v. Inr (identity_quote v)) 1
      [example_store 1 ''chrome'' (ReadReturns [example_cookie ''sid'' ''abc''] None)]
      (example_state\<lparr>domain := []\<rparr>))) = []"
  using parseFlags_config_errors [of "example_state\<lparr>curl := True, name := ''sid''\<rparr>" 2
      identity_quote "\<lambda>v. Inr (identity_quote v)"
      "[example_store 1 ''chrome'' (ReadReturns [example_cookie ''sid'' ''abc''] None)]"]
    parseFlags_config_errors [of "example_state\<lparr>domain := []\<rparr>" 1
      identity_quote "\<lambda>v. Inr (identity_quote v)"
      "[example_store 1 ''chrome'' (ReadReturns [example_cookie ''sid'' ''abc''] None)]"]
  by (auto simp add: example_state_def)

text \<open>
  The claim as it is written gives a configuration error for every empty domain. A command
  line without any flag has an empty domain, and the process prints the usage text and exits
  with status 0.
\<close>

theorem parseFlags_no_flags_counterexample:
  "domain (example_state\<lparr>domain := []\<rparr>) = []
   \<and> fst (parseFlags 0 (example_state\<lparr>domain := []\<rparr>)) = Exits 0
   \<and> fst (main identity_quote (\<lambda>v. Inr (identity_quote v)) 0
        [example_store 1 ''chrome'' (ReadReturns [example_cookie ''sid'' ''abc''] None)]
        (example_state\<lparr>domain := []\<rparr>)) = 0"
  by (simp add: parseFlags_def printUsage_def run_def main_def example_state_def)

section \<open>Properties of the JSON formatters\<close>

lemma fold_update_distinct:
  "distinct (map fst m0) \<Longrightarrow> distinct (map fst (fold (\<lambda>x m. AList.update (kf x) (vf x) m) xs m0))"
  by (induction xs arbitrary: m0) (auto simp: distinct_update)

lemma fold_update_keys:
  "fst ` set (fold (\<lambda>x m. AList.update (kf x) (vf x) m) xs m0) = fst ` set m0 \<union> kf ` set xs"
  by (induction xs arbitrary: m0) (auto simp: dom_update)

lemma map_add_upd_left: "m(k \<mapsto> v) ++ M = m ++ ([k \<mapsto> v] ++ M)"
  by (rule ext) (auto simp: map_add_def split: option.splits)

lemma fold_update_map_of:
  "map_of (fold (\<lambda>x m. AList.update (kf x) (vf x) m) xs m0) =
     map_of m0 ++ map_of (rev (map (\<lambda>x. (kf x, vf x)) xs))"
proof (induction xs arbitrary: m0)
  case Nil
  then show ?case by simp
next
  case (Cons x xs)
  have "map_of (fold (\<lambda>x m. AList.update (kf x) (vf x) m) (x # xs) m0) =
        map_of (AList.update (kf x) (vf x) m0) ++ map_of (rev (map (\<lambda>x. (kf x, vf x)) xs))"
    using Cons.IH [of "AList.update (kf x) (vf x) m0"] by simp
  also have "\<dots> = map_of m0 ++ ([kf x \<mapsto> vf x] ++ map_of (rev (map (\<lambda>x. (kf x, vf x)) xs)))"
    unfolding update_conv' by (rule map_add_upd_left)
  also have "[kf x \<mapsto> vf x] ++ map_of (rev (map (\<lambda>x. (kf x, vf x)) xs)) =
             map_of (rev (map (\<lambda>x. (kf x, vf x)) (x # xs)))"
    by simp
  finally show ?case .
qed

lemma map_of_rev_last:
  "map_of (rev (map (\<lambda>x. (kf x, vf x)) xs)) k =
     (if filter (\<lambda>x. kf x = k) xs = [] then None else Some (vf (last (filter (\<lambda>x. kf x = k) xs))))"
  by (induction xs rule: rev_induct) auto

lemma fold_update_lookup:
  "map_of (fold (\<lambda>x m. AList.update (kf x) (vf x) m) xs []) k =
     (if filter (\<lambda>x. kf x = k) xs = [] then None else Some (vf (last (filter (\<lambda>x. kf x = k) xs))))"
  by (simp add: fold_update_map_of map_of_rev_last)

lemma members_keys: "map fst (members m) = sort (map fst m)"
  by (simp add: members_def comp_def)

lemma members_lookup:
  "(k, v) \<in> set (members m) \<Longrightarrow> map_of m k = Some v"
  by (auto simp: members_def weak_map_of_SomeI dest!: map_of_SomeD split: option.splits)

lemma encodeMembers_total:
  "encodeMembers q (\<lambda>v. Inr (f v)) kvs = Inr (map (\<lambda>(k, v). q k @ '':'' @ f v) kvs)"
  by (induction kvs) auto

lemma Marshal_total:
  "Marshal q (\<lambda>v. Inr (f v)) m = Inr (''{'' @ Join (map (\<lambda>(k, v). q k @ '':'' @ f v) (members m)) '','' @ ''}'')"
  by (simp add: Marshal_def encodeMembers_total)

lemma cookiesMap_lookup:
  "map_of (cookiesMap cookies) n =
     (if filter (\<lambda>c. Name c = n) cookies = [] then None
      else Some (Value (last (filter (\<lambda>c. Name c = n) cookies))))"
  unfolding cookiesMap_def by (rule fold_update_lookup)

text \<open>
  Claim C5. The name/value formatter always succeeds, and the JSON object it writes has
  exactly one member per distinct cookie name (the member keys are distinct and are the
  names that occur in the sequence); the value of the member of a name is the value of the
  last record of that name in the sequence. This holds for every sequence, the non-empty
  ones in particular.
\<close>

theorem serializeCookiesToJson_last_write_wins:
  "serializeCookiesToJson q cookies =
     Inr (''{'' @ Join (map (\<lambda>(n, v). q n @ '':'' @ q v) (members (cookiesMap cookies))) '','' @ ''}'')
   \<and> distinct (map fst (members (cookiesMap cookies)))
   \<and> set (map fst (members (cookiesMap cookies))) = Name ` set cookies
   \<and> (\<forall>n v. (n, v) \<in> set (members (cookiesMap cookies)) \<longrightarrow>
        v = Value (last (filter (\<lambda>c. Name c = n) cookies)))"
proof (intro conjI allI impI)
  show "serializeCookiesToJson q cookies =
     Inr (''{'' @ Join (map (\<lambda>(n, v). q n @ '':'' @ q v) (members (cookiesMap cookies))) '','' @ ''}'')"
    by (simp add: serializeCookiesToJson_def Marshal_total)
  show "distinct (map fst (members (cookiesMap cookies)))"
    unfolding members_keys cookiesMap_def by (simp add: fold_update_distinct)
  show "set (map fst (members (cookiesMap cookies))) = Name ` set cookies"
    unfolding members_keys cookiesMap_def by (simp add: fold_update_keys)
next
  fix n v
  assume "(n, v) \<in> set (members (cookiesMap cookies))"
  then have "map_of (cookiesMap cookies) n = Some v"
    by (rule members_lookup)
  then show "v = Value (last (filter (\<lambda>c. Name c = n) cookies))"
    by (simp add: cookiesMap_lookup split: if_splits)
qed

theorem serializeCookiesToJson_last_write_wins_witness:
  "serializeCookiesToJson identity_quote
      [example_cookie ''sid'' ''abc'', example_cookie ''theme'' ''dark'', example_cookie ''sid'' ''xyz'']
     = Inr ''{\"sid\":\"xyz\",\"theme\":\"dark\"}''
   \<and> (''sid'', ''xyz'') \<in> set (members (cookiesMap
      [example_cookie ''sid'' ''abc'', example_cookie ''theme'' ''dark'', example_cookie ''sid'' ''xyz'']))
   \<and> ''xyz'' = Value (last (filter (\<lambda>c. Name c = ''sid'')
      [example_cookie ''sid'' ''abc'', example_cookie ''theme'' ''dark'', example_cookie ''sid'' ''xyz'']))"
  using serializeCookiesToJson_last_write_wins [of identity_quote
      "[example_cookie ''sid'' ''abc'', example_cookie ''theme'' ''dark'', example_cookie ''sid'' ''xyz'']"]
  by (simp add: cookiesMap_def members_def identity_quote_def example_cookie_def)

lemma members_cong:
  assumes "distinct (map fst m)" "distinct (map fst m')" "fst ` set m = fst ` set m'"
    and "\<And>k. k \<in> fst ` set m \<Longrightarrow> map_of m k = map_of m' k"
  shows "members m = members m'"
proof -
  have "sort (map fst m) = sort (map fst m')"
    using assms(1-3) by (intro sorted_distinct_set_unique) simp_all
  moreover have "\<And>k. k \<in> set (sort (map fst m)) \<Longrightarrow> map_of m k = map_of m' k"
    using assms(4) by simp
  ultimately show ?thesis
    unfolding members_def by (auto intro!: map_cong)
qed

lemma last_filter_unique:
  assumes "inj_on f (set xs)" "set xs = set ys" "filter (\<lambda>c. f c = k) xs \<noteq> []"
  shows "last (filter (\<lambda>c. f c = k) xs) = last (filter (\<lambda>c. f c = k) ys)"
proof -
  have ne: "filter (\<lambda>c. f c = k) ys \<noteq> []"
    using assms(2,3) by (auto simp: filter_empty_conv)
  have "last (filter (\<lambda>c. f c = k) xs) \<in> set (filter (\<lambda>c. f c = k) xs)"
    using assms(3) by (rule last_in_set)
  moreover have "last (filter (\<lambda>c. f c = k) ys) \<in> set (filter (\<lambda>c. f c = k) ys)"
    using ne by (rule last_in_set)
  ultimately have "last (filter (\<lambda>c. f c = k) xs) \<in> set xs" "last (filter (\<lambda>c. f c = k) ys) \<in> set xs"
    "f (last (filter (\<lambda>c. f c = k) xs)) = f (last (filter (\<lambda>c. f c = k) ys))"
    using assms(2) by auto
  with assms(1) show ?thesis
    by (simp add: inj_on_def)
qed

text \<open>
  Claim C10. For two sequences that are permutations of each other, with pairwise distinct
  cookie names, the name/value formatter gives the same output; the member keys are written
  in sorted order.
\<close>

theorem serializeCookiesToJson_order_independent:
  assumes "mset cookies = mset cookies'" and "distinct (map Name cookies)"
  shows "serializeCookiesToJson q cookies = serializeCookiesToJson q cookies'
       \<and> sorted (map fst (members (cookiesMap cookies)))"
proof -
  have s: "set cookies = set cookies'"
    using assms(1) by (rule mset_eq_setD)
  have inj: "inj_on Name (set cookies)"
    using assms(2) by (simp add: distinct_map)
  have "members (cookiesMap cookies) = members (cookiesMap cookies')"
  proof (rule members_cong)
    show "distinct (map fst (cookiesMap cookies))" "distinct (map fst (cookiesMap cookies'))"
      unfolding cookiesMap_def by (simp_all add: fold_update_distinct)
    show "fst ` set (cookiesMap cookies) = fst ` set (cookiesMap cookies')"
      unfolding cookiesMap_def by (simp add: fold_update_keys s)
  next
    fix k
    assume "k \<in> fst ` set (cookiesMap cookies)"
    then have "k \<in> Name ` set cookies"
      unfolding cookiesMap_def by (simp add: fold_update_keys)
    then have ne: "filter (\<lambda>c. Name c = k) cookies \<noteq> []" "filter (\<lambda>c. Name c = k) cookies' \<noteq> []"
      using s by (auto simp: filter_empty_conv)
    with last_filter_unique [OF inj s ne(1)]
    show "map_of (cookiesMap cookies) k = map_of (cookiesMap cookies') k"
      by (simp add: cookiesMap_lookup)
  qed
  then show ?thesis
    by (simp add: serializeCookiesToJson_def Marshal_def members_keys)
qed

theorem serializeCookiesToJson_order_independent_witness:
  "mset [example_cookie ''theme'' ''dark'', example_cookie ''sid'' ''abc'']
     = mset [example_cookie ''sid'' ''abc'', example_cookie ''theme'' ''dark'']
   \<and> distinct (map Name [example_cookie ''theme'' ''dark'', example_cookie ''sid'' ''abc''])
   \<and> serializeCookiesToJson identity_quote [example_cookie ''theme'' ''dark'', example_cookie ''sid'' ''abc'']
     = serializeCookiesToJson identity_quote [example_cookie ''sid'' ''abc'', example_cookie ''theme'' ''dark'']
   \<and> serializeCookiesToJson identity_quote [example_cookie ''theme'' ''dark'', example_cookie ''sid'' ''abc'']
     = Inr ''{\"sid\":\"abc\",\"theme\":\"dark\"}''"
  using serializeCookiesToJson_order_independent [of
      "[example_cookie ''theme'' ''dark'', example_cookie ''sid'' ''abc'']"
      "[example_cookie ''sid'' ''abc'', example_cookie ''theme'' ''dark'']" identity_quote]
  by (simp add: serializeCookiesToJson_def Marshal_def cookiesMap_def members_def identity_quote_def
        example_cookie_def)









section \<open>Properties of the store error report\<close>

lemma digit_char_val: "d < 10 \<Longrightarrow> of_char (''0123456789'' ! d) = (48 + d :: nat)"
proof -
  assume "d < 10"
  then have "d \<in> {0, 1, 2, 3, 4, 5, 6, 7, 8, 9}" by auto
  then show ?thesis by auto
qed


lemma digits_value_digits: "digits_value (digits n) = n"
proof (induction n rule: digits.induct)
  case (1 n)
  show ?case
  proof (cases "n < 10")
    case True
    then show ?thesis
      by (subst digits.simps) (simp add: digits_value_def digit_char_val)
  next
    case False
    then have "digits_value (digits (n div 10)) = n div 10"
      using 1 by simp
    moreover have "n mod 10 < 10" by simp
    ultimately show ?thesis
      using False
      by (subst digits.simps) (simp add: digits_value_def digit_char_val)
  qed
qed

lemma digits_inj: "digits m = digits n \<Longrightarrow> m = n"
  by (metis digits_value_digits)

lemma Itoa_index_inj: "Itoa (int i + 1) = Itoa (int j + 1) \<Longrightarrow> i = j"
proof -
  assume "Itoa (int i + 1) = Itoa (int j + 1)"
  then have "digits (nat (int i + 1)) = digits (nat (int j + 1))"
    by (simp add: Itoa_def)
  then have "nat (int i + 1) = nat (int j + 1)"
    by (rule digits_inj)
  then show "i = j" by simp
qed

lemma jsonErrors_fold:
  "jsonErrors errs = fold (\<lambda>x m. AList.update (Itoa (int (fst x) + 1)) (snd x) m) (enumerate 0 errs) []"
  unfolding jsonErrors_def case_prod_beta ..

lemma jsonErrors_lookup:
  assumes "i < length errs"
  shows "map_of (jsonErrors errs) (Itoa (int i + 1)) = Some (errs ! i)"
proof -
  let ?kvs = "map (\<lambda>x. (Itoa (int (fst x) + 1), snd x)) (enumerate 0 errs)"
  have "inj_on (\<lambda>i. Itoa (int i + 1)) (set [0..<length errs])"
    by (auto simp: inj_on_def dest: Itoa_index_inj)
  then have "distinct (map (\<lambda>i. Itoa (int i + 1)) [0..<length errs])"
    by (simp add: distinct_map)
  moreover have "map fst ?kvs = map (\<lambda>i. Itoa (int i + 1)) (map fst (enumerate 0 errs))"
    by (simp add: comp_def del: map_fst_enumerate)
  then have "map fst ?kvs = map (\<lambda>i. Itoa (int i + 1)) [0..<length errs]"
    by (simp only: map_fst_enumerate add_0)
  ultimately have d: "distinct (map fst (rev ?kvs))"
    by (simp add: rev_map [symmetric])
  have "(i, errs ! i) \<in> set (enumerate 0 errs)"
    using assms by (simp add: in_set_enumerate_eq)
  then have "(Itoa (int i + 1), errs ! i) \<in> set (rev ?kvs)"
    by force
  with d have "map_of (rev ?kvs) (Itoa (int i + 1)) = Some (errs ! i)"
    by simp
  then show ?thesis
    unfolding jsonErrors_fold fold_update_map_of by simp
qed

lemma jsonErrors_keys:
  "fst ` set (jsonErrors errs) = (\<lambda>i. Itoa (int i + 1)) ` {..<length errs}"
proof -
  have "(\<lambda>x. Itoa (int (fst x) + 1)) ` set (enumerate 0 errs) =
        (\<lambda>i. Itoa (int i + 1)) ` set (map fst (enumerate 0 errs))"
    by (simp add: image_image del: map_fst_enumerate)
  also have "\<dots> = (\<lambda>i. Itoa (int i + 1)) ` {..<length errs}"
    by (simp add: atLeast0LessThan)
  finally show ?thesis
    unfolding jsonErrors_fold fold_update_keys by simp
qed

lemma filters_debug [simp]: "filters (st\<lparr>debug := x\<rparr>) d = filters st d"
  by (simp add: filters_def)

lemma loop_debug_rel:
  "st2 = st\<lparr>debug := x\<rparr> \<Longrightarrow>
   getCookies_loop b d stores cookies deferred st2 =
     (case getCookies_loop b d stores cookies deferred st of
        (p, cookies', deferred', st') \<Rightarrow> (p, cookies', deferred', st'\<lparr>debug := x\<rparr>))"
proof (induction stores arbitrary: cookies deferred st st2)
  case Nil
  then show ?case by simp
next
  case (Cons s stores)
  have f: "filters st2 d = filters st d"
    using Cons.prems by simp
  show ?case
  proof (cases "Browser s = b")
    case False
    then show ?thesis using Cons.IH [OF Cons.prems] by simp
  next
    case True
    show ?thesis
    proof (cases "ReadCookies s (filters st d)")
      case (ReadPanics msg)
      have "st2\<lparr>calls := calls st2 @ [ReadCall (handle s) (filters st d)]\<rparr> =
            st\<lparr>calls := calls st @ [ReadCall (handle s) (filters st d)], debug := x\<rparr>"
        using Cons.prems by simp
      with True ReadPanics f show ?thesis by simp
    next
      case (ReadReturns cs err)
      let ?upd = "\<lambda>t. t\<lparr>calls := calls t @ [ReadCall (handle s) (filters st d)],
                   cookieStoreErrors := (case err of None \<Rightarrow> cookieStoreErrors t | Some e \<Rightarrow> cookieStoreErrors t @ [e])\<rparr>"
      have "?upd st2 = (?upd st)\<lparr>debug := x\<rparr>"
        using Cons.prems by (cases err) simp_all
      from Cons.IH [OF this, of "append_slice cookies cs" "handle s # deferred"]
      show ?thesis using True ReadReturns f by simp
    qed
  qed
qed

lemma loop_frame:
  "getCookies_loop b d stores cookies deferred st = (p, cookies', deferred', st') \<Longrightarrow>
   st' = st\<lparr>calls := calls st', cookieStoreErrors := cookieStoreErrors st'\<rparr>"
proof (induction stores arbitrary: cookies deferred st)
  case Nil
  then show ?case by auto
next
  case (Cons s stores)
  show ?case
  proof (cases "Browser s = b")
    case False
    then show ?thesis using Cons by simp
  next
    case True
    show ?thesis
    proof (cases "ReadCookies s (filters st d)")
      case (ReadPanics msg)
      with True Cons.prems show ?thesis by auto
    next
      case (ReadReturns cs err)
      let ?st1 = "st\<lparr>calls := calls st @ [ReadCall (handle s) (filters st d)],
                   cookieStoreErrors := (case err of None \<Rightarrow> cookieStoreErrors st | Some e \<Rightarrow> cookieStoreErrors st @ [e])\<rparr>"
      from True ReadReturns Cons.prems
      have "getCookies_loop b d stores (append_slice cookies cs) (handle s # deferred) ?st1 = (p, cookies', deferred', st')"
        by simp
      from Cons.IH [OF this] have "st' = ?st1\<lparr>calls := calls st', cookieStoreErrors := cookieStoreErrors st'\<rparr>" .
      then show ?thesis by simp
    qed
  qed
qed

lemma getCookies_debug:
  "getCookies provider b d (st\<lparr>debug := x\<rparr>) =
     (fst (getCookies provider b d st), (snd (getCookies provider b d st))\<lparr>debug := x\<rparr>)"
proof -
  obtain p c f st1 where
    l: "getCookies_loop b d provider None [] (st\<lparr>calls := calls st @ [FindAllCookieStores]\<rparr>) = (p, c, f, st1)"
    by (metis prod_cases4)
  have "st\<lparr>debug := x\<rparr>\<lparr>calls := calls (st\<lparr>debug := x\<rparr>) @ [FindAllCookieStores]\<rparr> =
        st\<lparr>calls := calls st @ [FindAllCookieStores]\<rparr>\<lparr>debug := x\<rparr>"
    by simp
  from loop_debug_rel [OF this, of b d provider None "[]"] l
  have l2: "getCookies_loop b d provider None []
              (st\<lparr>debug := x\<rparr>\<lparr>calls := calls (st\<lparr>debug := x\<rparr>) @ [FindAllCookieStores]\<rparr>) =
            (p, c, f, st1\<lparr>debug := x\<rparr>)"
    by simp
  have "st1\<lparr>debug := x\<rparr>\<lparr>calls := calls (st1\<lparr>debug := x\<rparr>) @ map CloseCall f\<rparr> =
        st1\<lparr>calls := calls st1 @ map CloseCall f\<rparr>\<lparr>debug := x\<rparr>"
    by simp
  then show ?thesis
    unfolding getCookies_def l l2 by simp
qed

lemma getCookies_frame:
  "getCookies provider b d st = (r, st') \<Longrightarrow>
   st' = st\<lparr>calls := calls st', cookieStoreErrors := cookieStoreErrors st'\<rparr>"
proof -
  assume h: "getCookies provider b d st = (r, st')"
  obtain p c f st1 where
    l: "getCookies_loop b d provider None [] (st\<lparr>calls := calls st @ [FindAllCookieStores]\<rparr>) = (p, c, f, st1)"
    by (metis prod_cases4)
  from loop_frame [OF l] have "st1 = st\<lparr>calls := calls st1, cookieStoreErrors := cookieStoreErrors st1\<rparr>"
    by simp
  moreover from h l have "st' = st1\<lparr>calls := calls st1 @ map CloseCall f\<rparr>"
    by (simp add: getCookies_def)
  ultimately show ?thesis
    by (metis (no_types, lifting) state.surjective state.update_convs(2) globals.update_convs(8) state.select_convs(2) globals.select_convs(8))
qed

lemma formatStoreErrorsAsJson_total:
  "formatStoreErrorsAsJson q st =
     Inr (''{'' @ Join (map (\<lambda>(k, v). q k @ '':'' @ q v) (members (jsonErrors (cookieStoreErrors st)))) '','' @ ''}'')"
  by (simp add: formatStoreErrorsAsJson_def Marshal_total)

lemma serializeFull_upd [simp]:
  "serializeFullCookieInfoToJson q encv (st\<lparr>debug := x\<rparr>) cookies = serializeFullCookieInfoToJson q encv st cookies"
  "serializeFullCookieInfoToJson q encv (st\<lparr>stdout := out\<rparr>) cookies = serializeFullCookieInfoToJson q encv st cookies"
  "serializeFullCookieInfoToJson q encv (st\<lparr>calls := cs\<rparr>) cookies = serializeFullCookieInfoToJson q encv st cookies"
  "serializeFullCookieInfoToJson q encv (st\<lparr>cookieStoreErrors := es\<rparr>) cookies = serializeFullCookieInfoToJson q encv st cookies"
  by (simp_all add: serializeFullCookieInfoToJson_def fullCookiesMap_def cookieMap_def)

lemma parseFlags_debug:
  "parseFlags nflag (st\<lparr>debug := x\<rparr>) =
     (fst (parseFlags nflag st), (snd (parseFlags nflag st))\<lparr>debug := x\<rparr>)"
  by (simp add: parseFlags_def printUsage_def Println_def)

lemma parseFlags_ok: "fst (parseFlags nflag st) = Returns None \<Longrightarrow> parseFlags nflag st = (Returns None, st)"
  by (simp add: parseFlags_def printUsage_def split: if_splits)

lemma run_debug_outcome:
  "fst (run q encv nflag provider (st\<lparr>debug := True\<rparr>)) = fst (run q encv nflag provider (st\<lparr>debug := False\<rparr>))"
proof -
  obtain r1 s1 where p: "parseFlags nflag st = (r1, s1)" by fastforce
  obtain r2 s2 where g: "getCookies provider (browser s1) (domain s1) s1 = (r2, s2)" by fastforce
  have gf: "s2 = s1\<lparr>calls := calls s2, cookieStoreErrors := cookieStoreErrors s2\<rparr>"
    using getCookies_frame [OF g] .
  have n: "name s2 = name s1" "curl s2 = curl s1" "fullCookieInfo s2 = fullCookieInfo s1" "domain s2 = domain s1"
    by (subst gf, simp)+
  show ?thesis
    unfolding run_def parseFlags_debug getCookies_debug p
    using g n
    by (simp add: formatStoreErrorsAsJson_total Println_def getCookies_debug Let_def
          split: outcome.split option.split sum.split)
qed

lemma run_debug_stdout:
  assumes ok: "fst (parseFlags nflag st) = Returns None"
    and g: "getCookies provider (browser st) (domain st) (st\<lparr>debug := False\<rparr>) = (Returns (Inr cookies), st1)"
  shows "\<exists>out. stdout (snd (run q encv nflag provider (st\<lparr>debug := False\<rparr>))) = stdout st @ out
           \<and> stdout (snd (run q encv nflag provider (st\<lparr>debug := True\<rparr>))) =
               stdout st @ [''{'' @ Join (map (\<lambda>(k, v). q k @ '':'' @ q v)
                                  (members (jsonErrors (cookieStoreErrors st1)))) '','' @ ''}''] @ out"
proof -
  have p: "parseFlags nflag (st\<lparr>debug := x\<rparr>) = (Returns None, st\<lparr>debug := x\<rparr>)" for x
    using parseFlags_ok [OF ok] by (simp add: parseFlags_debug)
  have gf: "st1 = st\<lparr>debug := False\<rparr>\<lparr>calls := calls st1, cookieStoreErrors := cookieStoreErrors st1\<rparr>"
    using getCookies_frame [OF g] .
  have n: "name st1 = name st" "curl st1 = curl st" "fullCookieInfo st1 = fullCookieInfo st"
    "domain st1 = domain st" "stdout st1 = stdout st" "debug st1 = False"
    by (subst gf, simp)+
  have gT: "getCookies provider (browser st) (domain st) (st\<lparr>debug := True\<rparr>) = (Returns (Inr cookies), st1\<lparr>debug := True\<rparr>)"
    using getCookies_debug [of provider "browser st" "domain st" True "st\<lparr>debug := False\<rparr>"] g by simp
  show ?thesis
    unfolding run_def p
    using g gT n
    by (simp add: formatStoreErrorsAsJson_total Println_def Let_def split: sum.split)
qed

lemma main_status:
  "fst (main q encv nflag provider st) =
     (case fst (run q encv nflag provider st) of
        Returns None \<Rightarrow> 0 | Returns (Some err) \<Rightarrow> 1 | Exits c \<Rightarrow> c | Panics msg \<Rightarrow> 2)"
  by (cases "run q encv nflag provider st")
     (simp add: main_def split: outcome.split option.split)

lemma run_aggregation_fails:
  assumes ok: "fst (parseFlags nflag st) = Returns None"
    and g: "getCookies provider (browser st) (domain st) st = (Returns (Inl e), st1)"
  shows "run q encv nflag provider st = (Returns (Some (Wrapped ''failed to obtain cookies: '' e)), st1)
       \<and> stdout st1 = stdout st"
proof -
  have gf: "st1 = st\<lparr>calls := calls st1, cookieStoreErrors := cookieStoreErrors st1\<rparr>"
    using getCookies_frame [OF g] .
  have "stdout st1 = stdout st"
    by (subst gf) simp
  then show ?thesis
    using parseFlags_ok [OF ok] g by (simp add: run_def)
qed

text \<open>
  Claim C9, as the code has it. The map built from the Store Error list sends the decimal
  rendering of \<open>i + 1\<close> to the \<open>i\<close>-th error text, for every position \<open>i\<close>, and has no
  other key; marshalling it never fails. The outcome of \<open>run\<close>, and with it the exit status
  of the process, is the same with and without the debug flag. When flag resolution succeeds
  and the aggregation returns cookies, the run with the debug flag prints the JSON line of
  the recorded errors first and then exactly what the run without the flag prints. When the
  aggregation fails, \<open>run\<close> returns its error before the debug block is reached and prints
  nothing, debug flag or not.
\<close>

theorem debug_store_errors_json:
  "(\<forall>i < length errs. map_of (jsonErrors errs) (Itoa (int i + 1)) = Some (errs ! i))
   \<and> fst ` set (jsonErrors errs) = (\<lambda>i. Itoa (int i + 1)) ` {..<length errs}
   \<and> formatStoreErrorsAsJson q st =
        Inr (''{'' @ Join (map (\<lambda>(k, v). q k @ '':'' @ q v)
                       (members (jsonErrors (cookieStoreErrors st)))) '','' @ ''}'')
   \<and> fst (run q encv nflag provider (st\<lparr>debug := True\<rparr>)) =
       fst (run q encv nflag provider (st\<lparr>debug := False\<rparr>))
   \<and> fst (main q encv nflag provider (st\<lparr>debug := True\<rparr>)) =
       fst (main q encv nflag provider (st\<lparr>debug := False\<rparr>))
   \<and> (\<forall>cookies st1.
         fst (parseFlags nflag st) = Returns None
         \<and> getCookies provider (browser st) (domain st) (st\<lparr>debug := False\<rparr>) = (Returns (Inr cookies), st1)
         \<longrightarrow> (\<exists>out. stdout (snd (run q encv nflag provider (st\<lparr>debug := False\<rparr>))) = stdout st @ out
               \<and> stdout (snd (run q encv nflag provider (st\<lparr>debug := True\<rparr>))) =
                   stdout st @ [''{'' @ Join (map (\<lambda>(k, v). q k @ '':'' @ q v)
                                   (members (jsonErrors (cookieStoreErrors st1)))) '','' @ ''}''] @ out))
   \<and> (\<forall>e st1.
         fst (parseFlags nflag st) = Returns None
         \<and> getCookies provider (browser st) (domain st) (st\<lparr>debug := True\<rparr>) = (Returns (Inl e), st1)
         \<longrightarrow> run q encv nflag provider (st\<lparr>debug := True\<rparr>) =
               (Returns (Some (Wrapped ''failed to obtain cookies: '' e)), st1)
             \<and> stdout st1 = stdout st)"
proof (intro conjI allI impI)
  fix i assume "i < length errs"
  then show "map_of (jsonErrors errs) (Itoa (int i + 1)) = Some (errs ! i)"
    by (rule jsonErrors_lookup)
next
  show "fst ` set (jsonErrors errs) = (\<lambda>i. Itoa (int i + 1)) ` {..<length errs}"
    by (rule jsonErrors_keys)
  show "formatStoreErrorsAsJson q st =
        Inr (''{'' @ Join (map (\<lambda>(k, v). q k @ '':'' @ q v)
                       (members (jsonErrors (cookieStoreErrors st)))) '','' @ ''}'')"
    by (rule formatStoreErrorsAsJson_total)
  show "fst (run q encv nflag provider (st\<lparr>debug := True\<rparr>)) =
       fst (run q encv nflag provider (st\<lparr>debug := False\<rparr>))"
    by (rule run_debug_outcome)
  then show "fst (main q encv nflag provider (st\<lparr>debug := True\<rparr>)) =
       fst (main q encv nflag provider (st\<lparr>debug := False\<rparr>))"
    by (simp only: main_status)
next
  fix cookies st1
  assume "fst (parseFlags nflag st) = Returns None
         \<and> getCookies provider (browser st) (domain st) (st\<lparr>debug := False\<rparr>) = (Returns (Inr cookies), st1)"
  then show "\<exists>out. stdout (snd (run q encv nflag provider (st\<lparr>debug := False\<rparr>))) = stdout st @ out
               \<and> stdout (snd (run q encv nflag provider (st\<lparr>debug := True\<rparr>))) =
                   stdout st @ [''{'' @ Join (map (\<lambda>(k, v). q k @ '':'' @ q v)
                                   (members (jsonErrors (cookieStoreErrors st1)))) '','' @ ''}''] @ out"
    using run_debug_stdout by blast
next
  fix e st1
  assume h: "fst (parseFlags nflag st) = Returns None
         \<and> getCookies provider (browser st) (domain st) (st\<lparr>debug := True\<rparr>) = (Returns (Inl e), st1)"
  then have ok: "fst (parseFlags nflag (st\<lparr>debug := True\<rparr>)) = Returns None"
    by (simp add: parseFlags_debug)
  from h have g: "getCookies provider (browser (st\<lparr>debug := True\<rparr>)) (domain (st\<lparr>debug := True\<rparr>))
                    (st\<lparr>debug := True\<rparr>) = (Returns (Inl e), st1)"
    by simp
  from run_aggregation_fails [OF ok g, of q encv]
  show "run q encv nflag provider (st\<lparr>debug := True\<rparr>) =
               (Returns (Some (Wrapped ''failed to obtain cookies: '' e)), st1)"
    and "stdout st1 = stdout st"
    by simp_all
qed

theorem debug_store_errors_json_witness:
  "run identity_quote (\<lambda>v. Inr (identity_quote v)) 2
      [example_store 1 ''chrome'' (ReadReturns [example_cookie ''sid'' ''abc'', example_cookie ''theme'' ''dark''] None),
       example_store 2 ''chrome'' (ReadReturns [] (Some ''locked''))]
      (example_state\<lparr>debug := True\<rparr>)
   = (Returns None,
      example_state\<lparr>debug := True, cookieStoreErrors := [''locked''],
        stdout := [''{\"1\":\"locked\"}'', ''{\"sid\":\"abc\",\"theme\":\"dark\"}''],
        calls := [FindAllCookieStores,
                  ReadCall 1 [Valid, DomainContains ''example.com''],
                  ReadCall 2 [Valid, DomainContains ''example.com''],
                  CloseCall 2, CloseCall 1]\<rparr>)
   \<and> map_of (jsonErrors [''locked'', ''missing profile'']) ''2'' = Some ''missing profile''"
  using debug_store_errors_json [of "[''locked'', ''missing profile'']" identity_quote example_state
      "\<lambda>v. Inr (identity_quote v)" 2
      "[example_store 1 ''chrome'' (ReadReturns [example_cookie ''sid'' ''abc'', example_cookie ''theme'' ''dark''] None),
        example_store 2 ''chrome'' (ReadReturns [] (Some ''locked''))]"]
  by (simp add: run_def parseFlags_def getCookies_def filters_def formatStoreErrorsAsJson_def
        serializeCookiesToJson_def cookiesMap_def Marshal_def members_def jsonErrors_def Itoa_def
        Println_def identity_quote_def example_state_def example_store_def example_cookie_def enumerate_eq_zip)

text \<open>
  The claim as it is written has the line printed whenever the debug flag is set. With the
  flag set and one store whose read gives no cookie and the error "locked", the error is
  recorded, the aggregation fails, and standard output stays empty.
\<close>

theorem debug_not_printed_counterexample:
  "debug (example_state\<lparr>debug := True\<rparr>)
   \<and> run identity_quote (\<lambda>v. Inr (identity_quote v)) 2
      [example_store 1 ''chrome'' (ReadReturns [] (Some ''locked''))]
      (example_state\<lparr>debug := True\<rparr>)
   = (Returns (Some (Wrapped ''failed to obtain cookies: ''
        (NotFoundError ''no cookies for browser chrome and domain example.com found.''))),
      example_state\<lparr>debug := True, cookieStoreErrors := [''locked''],
        stdout := [],
        calls := [FindAllCookieStores,
                  ReadCall 1 [Valid, DomainContains ''example.com''],
                  CloseCall 1]\<rparr>)"
  by (simp add: run_def parseFlags_def getCookies_def filters_def example_state_def example_store_def)

end
